theory Spec2Isabelle
  imports Complex_Main
begin

section \<open>Python values handled by the script\<close>

text \<open>
  The script of \<^verbatim>\<open>main.py\<close> walks the ICD-10 hierarchy served by the WHO API.
  Everything it receives is a decoded JSON document, so the payloads are modelled by the
  values \<^verbatim>\<open>response.json()\<close> can return. A \<open>string\<close> is the UTF-8 byte
  string of a Python \<^verbatim>\<open>str\<close>; an object is its list of key/value pairs in
  insertion order (the decoder produces distinct keys); Python's \<^verbatim>\<open>None\<close> is
  \<open>JNull\<close>. Finite floats are rationals.
\<close>

datatype json =
    JNull
  | JBool bool
  | JInt int
  | JFloat rat
  | JStr string
  | JArr "json list"
  | JObj "(string \<times> json) list"

text \<open>The exceptions that can leave the functions below; \<open>OSError\<close> carries \<open>str(e)\<close>.\<close>

datatype py_error = TypeError | AttributeError | KeyError | ValueError | OSError string

text \<open>Truth value testing, as in \<^verbatim>\<open>if data:\<close>.\<close>

fun truthy :: "json \<Rightarrow> bool" where
  "truthy JNull = False"
| "truthy (JBool b) = b"
| "truthy (JInt i) = (i \<noteq> 0)"
| "truthy (JFloat r) = (r \<noteq> 0)"
| "truthy (JStr s) = (s \<noteq> [])"
| "truthy (JArr xs) = (xs \<noteq> [])"
| "truthy (JObj kvs) = (kvs \<noteq> [])"

text \<open>\<^verbatim>\<open>isinstance(x, dict)\<close>.\<close>

fun is_dict :: "json \<Rightarrow> bool" where
  "is_dict (JObj kvs) = True"
| "is_dict _ = False"

text \<open>\<^verbatim>\<open>x in s\<close> on strings: \<open>x\<close> occurs in \<open>s\<close> as a contiguous run.\<close>

fun str_contains :: "string \<Rightarrow> string \<Rightarrow> bool" where
  "str_contains [] x = (x = [])"
| "str_contains (c # cs) x = (take (length x) (c # cs) = x \<or> str_contains cs x)"

text \<open>
  \<^verbatim>\<open>'child' in data\<close>: key membership on a dict, element membership on a list,
  substring test on a string; every other value is not a container and raises
  \<^verbatim>\<open>TypeError\<close>.
\<close>

fun in_child :: "json \<Rightarrow> py_error + bool" where
  "in_child (JObj kvs) = Inr (''child'' \<in> set (map fst kvs))"
| "in_child (JArr xs) = Inr (JStr ''child'' \<in> set xs)"
| "in_child (JStr s) = Inr (str_contains s ''child'')"
| "in_child _ = Inl TypeError"

text \<open>\<^verbatim>\<open>data['child']\<close>: only a dict can be subscripted by a string.\<close>

fun getitem_child :: "json \<Rightarrow> py_error + json" where
  "getitem_child (JObj kvs) =
     (case map_of kvs ''child'' of None \<Rightarrow> Inl KeyError | Some v \<Rightarrow> Inr v)"
| "getitem_child _ = Inl TypeError"

text \<open>
  The characters of a string, for iteration: a lead byte with the continuation bytes
  (\<open>0x80\<close> to \<open>0xBF\<close>) that follow it.
\<close>

definition is_continuation :: "char \<Rightarrow> bool" where
  "is_continuation c = (128 \<le> (of_char c :: nat) \<and> (of_char c :: nat) < 192)"

function utf8_chars :: "string \<Rightarrow> string list" where
  "utf8_chars [] = []"
| "utf8_chars (c # cs) =
     (c # takeWhile is_continuation cs) # utf8_chars (dropWhile is_continuation cs)"
  by pat_completeness auto
termination
  by (relation "measure length") (auto simp: length_dropWhile_le less_Suc_eq_le)

text \<open>
  The items a \<^verbatim>\<open>for\<close> loop draws from a value: the elements of a list, the keys of
  a dict, the characters of a string; anything else is not iterable.
\<close>

fun py_iter :: "json \<Rightarrow> py_error + json list" where
  "py_iter (JArr xs) = Inr xs"
| "py_iter (JObj kvs) = Inr (map (\<lambda>kv. JStr (fst kv)) kvs)"
| "py_iter (JStr s) = Inr (map JStr (utf8_chars s))"
| "py_iter _ = Inl TypeError"

text \<open>\<^verbatim>\<open>s.split('/')[-1]\<close>: what follows the last slash (all of \<open>s\<close> without one).\<close>

definition last_segment :: "string \<Rightarrow> string" where
  "last_segment s = rev (takeWhile (\<lambda>c. c \<noteq> CHR ''/'') (rev s))"

text \<open>\<^verbatim>\<open>s.replace(old, new)\<close> for one-character \<open>old\<close> and \<open>new\<close>.\<close>

definition replace_char :: "char \<Rightarrow> char \<Rightarrow> string \<Rightarrow> string" where
  "replace_char old new s = map (\<lambda>c. if c = old then new else c) s"

text \<open>\<^verbatim>\<open>os.path.join(a, b)\<close> on POSIX, for the two-argument call of the script.\<close>

definition os_path_join :: "string \<Rightarrow> string \<Rightarrow> string" where
  "os_path_join a b =
     (if b \<noteq> [] \<and> hd b = CHR ''/'' then b
      else if a = [] \<or> last a = CHR ''/'' then a @ b
      else a @ ''/'' @ b)"

section \<open>The world outside the script\<close>

text \<open>
  The script reaches the network through \<^verbatim>\<open>requests\<close>, decodes child references
  with \<^verbatim>\<open>urllib.parse.unquote\<close> and writes through \<^verbatim>\<open>os\<close> and
  \<^verbatim>\<open>open\<close>. None of that is code of the repository, so it is a parameter: an
  \<open>env\<close> fixes what every call answers during one run.

  \<^item> \<open>http_get url token\<close> is the outcome of \<^verbatim>\<open>requests.get\<close>,
    \<^verbatim>\<open>raise_for_status\<close> and \<^verbatim>\<open>response.json()\<close> together: a
    \<^verbatim>\<open>RequestException\<close> with its text (transport error, error status, or a body
    that is not JSON), or the decoded body.
  \<^item> \<open>unquote\<close> is \<^verbatim>\<open>urllib.parse.unquote\<close>.
  \<^item> \<open>makedirs d\<close> is \<open>Some cause\<close> when \<^verbatim>\<open>os.makedirs(d)\<close> raises
    \<^verbatim>\<open>OSError\<close>.
  \<^item> \<open>open_write f data\<close> tells how \<^verbatim>\<open>open(f, 'w')\<close> followed by
    \<^verbatim>\<open>json.dump\<close> ends: well, with an \<^verbatim>\<open>IOError\<close> from \<^verbatim>\<open>open\<close>, or with
    an \<^verbatim>\<open>IOError\<close> while writing, which leaves some bytes in the file.
\<close>

datatype http_result = RequestException string | Response json

datatype write_result = WriteOk | OpenFails string | DumpFails string string

record env =
  http_get :: "string \<Rightarrow> string \<Rightarrow> http_result"
  unquote :: "string \<Rightarrow> string"
  makedirs :: "string \<Rightarrow> string option"
  open_write :: "string \<Rightarrow> json \<Rightarrow> write_result"

text \<open>The parsed arguments (\<^verbatim>\<open>load_config\<close>), as far as the crawl reads them.\<close>

record config =
  token :: string
  output_dir :: string
  delay :: rat
  log_file :: string

text \<open>
  What a run leaves behind: the trace of its observable actions in order, the
  directories that exist, and the files with their contents. A \<open>Sleep\<close> is tagged with
  the code of the call that made it. A file written to the end holds the value dumped
  (\<^verbatim>\<open>json.dump\<close> with fixed options is a function of the value, so equal values
  are equal bytes); a file whose writing failed holds the bytes that got through.
\<close>

datatype level = INFO | WARNING | ERROR

datatype log_msg =
    StartMsg
  | RootCodesMsg "string list"
  | CompleteMsg
  | FetchingMsg string
  | FetchErrorMsg string string
  | SavedMsg string string
  | SaveErrorMsg string string
  | RootWarningMsg

datatype content = Dumped json | Partial string

datatype event =
    Log level log_msg
  | Request string
  | Write string content
  | Sleep string rat

record state =
  trace :: "event list"
  dirs :: "string set"
  files :: "string \<rightharpoonup> content"

type_synonym 'a result = "(py_error \<times> state) + 'a"

definition emit :: "event \<Rightarrow> state \<Rightarrow> state" where
  "emit e st = st\<lparr>trace := trace st @ [e]\<rparr>"

definition logger :: "level \<Rightarrow> log_msg \<Rightarrow> state \<Rightarrow> state" where
  "logger lvl m st = emit (Log lvl m) st"

text \<open>\<^verbatim>\<open>os.path.exists\<close>.\<close>

definition path_exists :: "string \<Rightarrow> state \<Rightarrow> bool" where
  "path_exists p st = (p \<in> dirs st \<or> files st p \<noteq> None)"

text \<open>\<^verbatim>\<open>time.sleep\<close> refuses a negative length.\<close>

definition time_sleep :: "string \<Rightarrow> rat \<Rightarrow> state \<Rightarrow> state result" where
  "time_sleep code d st = (if d < 0 then Inl (ValueError, st) else Inr (emit (Sleep code d) st))"

section \<open>The functions of main.py\<close>

definition icd_url :: "string \<Rightarrow> string" where
  "icd_url code = ''https://id.who.int/icd/release/10/2010/'' @ code"

definition fetch_icd_data :: "env \<Rightarrow> string \<Rightarrow> string \<Rightarrow> state \<Rightarrow> json \<times> state" where
  "fetch_icd_data e code tok st =
     (let st1 = emit (Request code) st in
      case http_get e (icd_url code) tok of
        Response body \<Rightarrow> (body, st1)
      | RequestException cause \<Rightarrow> (JNull, logger ERROR (FetchErrorMsg code cause) st1))"

definition icd_filename :: "string \<Rightarrow> string \<Rightarrow> string" where
  "icd_filename code dir =
     os_path_join dir
       (''icd10_'' @ replace_char CHR ''/'' CHR ''_'' (replace_char CHR ''.'' CHR ''_'' code)
          @ ''.json'')"

text \<open>
  \<^verbatim>\<open>save_icd_data\<close>. The directory is created outside the \<^verbatim>\<open>try\<close>; the
  handler takes \<^verbatim>\<open>IOError\<close> only, and \<^verbatim>\<open>open\<close> raises
  \<^verbatim>\<open>ValueError\<close> on a name with a NUL byte.
\<close>

definition save_icd_data :: "env \<Rightarrow> json \<Rightarrow> string \<Rightarrow> string \<Rightarrow> state \<Rightarrow> state result" where
  "save_icd_data e data code dir st =
     (case (if path_exists dir st then Inr st
            else case makedirs e dir of
                   Some cause \<Rightarrow> Inl (OSError cause, st)
                 | None \<Rightarrow> Inr (st\<lparr>dirs := insert dir (dirs st)\<rparr>)) of
        Inl err \<Rightarrow> Inl err
      | Inr st1 \<Rightarrow>
          (let filename = icd_filename code dir in
           if CHR 0x00 \<in> set filename then Inl (ValueError, st1)
           else case open_write e filename data of
               WriteOk \<Rightarrow>
                 Inr (logger INFO (SavedMsg code filename)
                       (emit (Write filename (Dumped data))
                          (st1\<lparr>files := (files st1)(filename \<mapsto> Dumped data)\<rparr>)))
             | OpenFails cause \<Rightarrow> Inr (logger ERROR (SaveErrorMsg code cause) st1)
             | DumpFails written cause \<Rightarrow>
                 Inr (logger ERROR (SaveErrorMsg code cause)
                       (emit (Write filename (Partial written))
                          (st1\<lparr>files := (files st1)(filename \<mapsto> Partial written)\<rparr>)))))"

text \<open>\<^verbatim>\<open>unquote(child_url.split('/')[-1])\<close>: only a string has \<^verbatim>\<open>split\<close>.\<close>

fun child_code :: "env \<Rightarrow> json \<Rightarrow> py_error + string" where
  "child_code e (JStr url) = Inr (unquote e (last_segment url))"
| "child_code e _ = Inl AttributeError"

text \<open>
  A \<^verbatim>\<open>for\<close> loop whose body may raise or, here, may not return: \<open>None\<close> is a
  body that does not return, \<open>Inl\<close> an exception, which ends the loop.
\<close>

fun for_each :: "('a \<Rightarrow> state \<Rightarrow> state result option) \<Rightarrow> 'a list \<Rightarrow> state \<Rightarrow> state result option" where
  "for_each f [] st = Some (Inr st)"
| "for_each f (x # xs) st =
     (case f x st of
        None \<Rightarrow> None
      | Some (Inl err) \<Rightarrow> Some (Inl err)
      | Some (Inr st') \<Rightarrow> for_each f xs st')"

text \<open>
  \<^verbatim>\<open>process_icd_code\<close>. The recursion of the source has no bound of its own, so the
  model carries the depth it may still descend: \<open>None\<close> says that this depth was not
  enough. (The interpreter's own recursion limit is not modelled.)
\<close>

fun process_icd_code :: "nat \<Rightarrow> env \<Rightarrow> config \<Rightarrow> string \<Rightarrow> state \<Rightarrow> state result option" where
  "process_icd_code 0 e cfg code st = None"
| "process_icd_code (Suc n) e cfg code st =
     (case fetch_icd_data e code (token cfg) (logger INFO (FetchingMsg code) st) of
        (data, st1) \<Rightarrow>
          if truthy data then
            (case save_icd_data e data code (output_dir cfg) st1 of
               Inl err \<Rightarrow> Some (Inl err)
             | Inr st2 \<Rightarrow>
                 (case in_child data of
                    Inl err \<Rightarrow> Some (Inl (err, st2))
                  | Inr False \<Rightarrow> Some (time_sleep code (delay cfg) st2)
                  | Inr True \<Rightarrow>
                      (case getitem_child data of
                         Inl err \<Rightarrow> Some (Inl (err, st2))
                       | Inr refs \<Rightarrow>
                           (case py_iter refs of
                              Inl err \<Rightarrow> Some (Inl (err, st2))
                            | Inr items \<Rightarrow>
                                (case for_each
                                        (\<lambda>child_url s.
                                           case child_code e child_url of
                                             Inl err \<Rightarrow> Some (Inl (err, s))
                                           | Inr c \<Rightarrow> process_icd_code n e cfg c s)
                                        items st2 of
                                   None \<Rightarrow> None
                                 | Some (Inl err) \<Rightarrow> Some (Inl err)
                                 | Some (Inr st3) \<Rightarrow> Some (time_sleep code (delay cfg) st3))))))
          else Some (time_sleep code (delay cfg) st1))"

definition fallback_root_codes :: "string list" where
  "fallback_root_codes =
     [''I'', ''II'', ''III'', ''IV'', ''V'', ''VI'', ''VII'', ''VIII'', ''IX'', ''X'', ''XI'',
      ''XII'', ''XIII'', ''XIV'', ''XV'', ''XVI'', ''XVII'', ''XVIII'', ''XIX'', ''XX'',
      ''XXI'', ''XXII'']"

text \<open>The list comprehension of \<^verbatim>\<open>get_root_codes\<close>: the first bad item raises.\<close>

fun decode_all :: "env \<Rightarrow> json list \<Rightarrow> py_error + string list" where
  "decode_all e [] = Inr []"
| "decode_all e (x # xs) =
     (case child_code e x of
        Inl err \<Rightarrow> Inl err
      | Inr c \<Rightarrow> (case decode_all e xs of Inl err \<Rightarrow> Inl err | Inr cs \<Rightarrow> Inr (c # cs)))"

definition get_root_codes :: "env \<Rightarrow> string \<Rightarrow> state \<Rightarrow> (string list \<times> state) result" where
  "get_root_codes e tok st =
     (case fetch_icd_data e [] tok st of
        (root_data, st1) \<Rightarrow>
          if is_dict root_data \<and> in_child root_data = Inr True then
            (case getitem_child root_data of
               Inl err \<Rightarrow> Inl (err, st1)
             | Inr refs \<Rightarrow>
                 (case py_iter refs of
                    Inl err \<Rightarrow> Inl (err, st1)
                  | Inr items \<Rightarrow>
                      (case decode_all e items of
                         Inl err \<Rightarrow> Inl (err, st1)
                       | Inr codes \<Rightarrow> Inr (codes, st1))))
          else Inr (fallback_root_codes, logger WARNING RootWarningMsg st1))"

text \<open>
  \<^verbatim>\<open>main\<close>, from the first log line on: \<^verbatim>\<open>load_config\<close> and the set-up of the
  log file precede the crawl and are given by \<open>cfg\<close>.
\<close>

definition main :: "nat \<Rightarrow> env \<Rightarrow> config \<Rightarrow> state \<Rightarrow> state result option" where
  "main n e cfg st =
     (case get_root_codes e (token cfg) (logger INFO StartMsg st) of
        Inl err \<Rightarrow> Some (Inl err)
      | Inr (root_codes, st1) \<Rightarrow>
          (case for_each (process_icd_code n e cfg) root_codes
                  (logger INFO (RootCodesMsg root_codes) st1) of
             None \<Rightarrow> None
           | Some (Inl err) \<Rightarrow> Some (Inl err)
           | Some (Inr st2) \<Rightarrow> Some (Inr (logger INFO CompleteMsg st2))))"

section \<open>Notions used to state the properties\<close>

text \<open>
  The state a run ends in, whether it returned or raised, and the exception if any.
\<close>

fun final :: "state result \<Rightarrow> state" where
  "final (Inl (err, st)) = st"
| "final (Inr st) = st"

fun raised :: "state result \<Rightarrow> py_error option" where
  "raised (Inl (err, st)) = Some err"
| "raised (Inr st) = None"

text \<open>The codes requested, and the codes whose call slept, in the order of the trace.\<close>

fun visits :: "event list \<Rightarrow> string list" where
  "visits [] = []"
| "visits (Request c # es) = c # visits es"
| "visits (ev # es) = visits es"


fun levels :: "event list \<Rightarrow> level list" where
  "levels [] = []"
| "levels (Log lvl m # es) = lvl # levels es"
| "levels (ev # es) = levels es"


text \<open>The effect of the writes of a trace on the files, in order.\<close>

fun apply_writes :: "event list \<Rightarrow> (string \<rightharpoonup> content) \<Rightarrow> (string \<rightharpoonup> content)" where
  "apply_writes [] m = m"
| "apply_writes (Write f c # es) m = apply_writes es (m(f \<mapsto> c))"
| "apply_writes (ev # es) m = apply_writes es m"

text \<open>
  The items the loop of \<^verbatim>\<open>process_icd_code\<close> draws from a payload: none when
  \<^verbatim>\<open>'child' in data\<close> is false. Its body, with the recursive call as a parameter.
  Sequencing of two parts of a run.
\<close>

definition child_items :: "json \<Rightarrow> py_error + json list" where
  "child_items data =
     (case in_child data of
        Inl err \<Rightarrow> Inl err
      | Inr False \<Rightarrow> Inr []
      | Inr True \<Rightarrow> (case getitem_child data of Inl err \<Rightarrow> Inl err | Inr refs \<Rightarrow> py_iter refs))"

definition visit_child :: "(string \<Rightarrow> state \<Rightarrow> state result option) \<Rightarrow> env \<Rightarrow> json \<Rightarrow> state \<Rightarrow> state result option" where
  "visit_child rec e child_url s =
     (case child_code e child_url of Inl err \<Rightarrow> Some (Inl (err, s)) | Inr c \<Rightarrow> rec c s)"

definition and_then :: "state result option \<Rightarrow> (state \<Rightarrow> state result option) \<Rightarrow> state result option" where
  "and_then r f = (case r of None \<Rightarrow> None | Some (Inl err) \<Rightarrow> Some (Inl err) | Some (Inr st) \<Rightarrow> f st)"

text \<open>
  Changing the state a run ends in; a trace with entries put in front, or put in at
  position \<open>k\<close>.
\<close>

definition map_result :: "(state \<Rightarrow> state) \<Rightarrow> state result \<Rightarrow> state result" where
  "map_result g r = (case r of Inl (err, s) \<Rightarrow> Inl (err, g s) | Inr s \<Rightarrow> Inr (g s))"

definition prepend :: "event list \<Rightarrow> state \<Rightarrow> state" where
  "prepend p s = s\<lparr>trace := p @ trace s\<rparr>"

definition splice :: "nat \<Rightarrow> event list \<Rightarrow> state \<Rightarrow> state" where
  "splice k evs s = s\<lparr>trace := take k (trace s) @ evs @ drop k (trace s)\<rparr>"

text \<open>What a call of \<^verbatim>\<open>process_icd_code\<close> adds to the trace when its fetch fails.\<close>

definition failed_fetch_events :: "string \<Rightarrow> string \<Rightarrow> rat \<Rightarrow> event list" where
  "failed_fetch_events code cause d =
     [Log INFO (FetchingMsg code), Request code, Log ERROR (FetchErrorMsg code cause),
      Sleep code d]"

text \<open>
  Modelled from the spec: the Roman numeral of a number below 40, to compare the
  fallback list of the source with "Roman numerals I to XXII".
\<close>

definition roman :: "nat \<Rightarrow> string" where
  "roman n =
     replicate (n div 10) CHR ''X''
       @ [[], ''I'', ''II'', ''III'', ''IV'', ''V'', ''VI'', ''VII'', ''VIII'', ''IX''] ! (n mod 10)"

text \<open>
  Two runs compared. \<open>keeps_dir e d s t\<close>: state \<open>t\<close> has the directory \<open>d\<close> if \<open>s\<close>
  has it, and if only \<open>t\<close> has it then creating it succeeds in \<open>e\<close>.
  \<open>mirrored e d s t r r'\<close>: a run from \<open>s\<close> ending in \<open>r\<close> and a run from \<open>t\<close> ending
  in \<open>r'\<close> raised the same exception or none, added the same entries to the trace,
  and changed the files by the writes among them.
\<close>

definition keeps_dir :: "env \<Rightarrow> string \<Rightarrow> state \<Rightarrow> state \<Rightarrow> bool" where
  "keeps_dir e d s t =
     ((path_exists d s \<longrightarrow> path_exists d t)
      \<and> (path_exists d t \<and> \<not> path_exists d s \<longrightarrow> makedirs e d = None))"

definition mirrored :: "env \<Rightarrow> string \<Rightarrow> state \<Rightarrow> state \<Rightarrow> state result \<Rightarrow> state result \<Rightarrow> bool" where
  "mirrored e d s t r r' =
     (raised r' = raised r
      \<and> keeps_dir e d (final r) (final r')
      \<and> keeps_dir e d s (final r)
      \<and> (\<exists>evs. trace (final r) = trace s @ evs \<and> trace (final r') = trace t @ evs
             \<and> files (final r) = apply_writes evs (files s)
             \<and> files (final r') = apply_writes evs (files t)))"








section \<open>Concrete worlds\<close>

text \<open>
  Percent-decoding on byte strings: \<open>%XY\<close> with two hexadecimal digits becomes the
  byte \<open>XY\<close>, any other \<open>%\<close> stays. This is what \<^verbatim>\<open>urllib.parse.unquote\<close> does
  whenever the decoded bytes are valid UTF-8 (it substitutes U+FFFD otherwise); it is
  used for the concrete runs below, whose codes are ASCII.
\<close>

definition hex_digit :: "char \<Rightarrow> nat option" where
  "hex_digit c =
     (let n = (of_char c :: nat) in
      if 48 \<le> n \<and> n \<le> 57 then Some (n - 48)
      else if 65 \<le> n \<and> n \<le> 70 then Some (n - 55)
      else if 97 \<le> n \<and> n \<le> 102 then Some (n - 87)
      else None)"

fun unquote_bytes :: "string \<Rightarrow> string" where
  "unquote_bytes (c # h1 # h2 # cs) =
     (if c = CHR ''%'' then
        (case (hex_digit h1, hex_digit h2) of
           (Some a, Some b) \<Rightarrow> char_of (16 * a + b) # unquote_bytes cs
         | _ \<Rightarrow> c # unquote_bytes (h1 # h2 # cs))
      else c # unquote_bytes (h1 # h2 # cs))"
| "unquote_bytes (c # cs) = c # unquote_bytes cs"
| "unquote_bytes [] = []"

text \<open>
  A world that answers each URL from a table, whatever the token, and in which storage
  never fails; the default arguments of the script; a machine with no file yet.
\<close>

definition served :: "(string \<Rightarrow> http_result) \<Rightarrow> env" where
  "served table =
     \<lparr> http_get = (\<lambda>url tok. table url), unquote = unquote_bytes,
       makedirs = (\<lambda>d. None), open_write = (\<lambda>f data. WriteOk) \<rparr>"

definition default_cfg :: config where
  "default_cfg =
     \<lparr> token = ''secret'', output_dir = ''icd_data'', delay = 1 / 2,
       log_file = ''icd_api.log'' \<rparr>"

definition empty_state :: state where
  "empty_state = \<lparr> trace = [], dirs = {}, files = Map.empty \<rparr>"

text \<open>
  The end-to-end scenario of the specification: the root listing names \<open>A\<close> and
  \<open>B\<close>, \<open>A\<close> names \<open>A.1\<close>, and both \<open>A.1\<close> and \<open>B\<close> answer with the empty object.
\<close>

definition payload_A :: json where
  "payload_A = JObj [(''child'', JArr [JStr ''https://host/path/A.1''])]"

definition scenario_remote :: "string \<Rightarrow> http_result" where
  "scenario_remote url =
     (if url = icd_url [] then
        Response (JObj [(''child'',
          JArr [JStr ''https://host/path/A'', JStr ''https://host/path/B''])])
      else if url = icd_url ''A'' then Response payload_A
      else if url = icd_url ''A.1'' then Response (JObj [])
      else if url = icd_url ''B'' then Response (JObj [])
      else RequestException ''404 Client Error'')"

definition scenario_result :: state where
  "scenario_result =
     \<lparr> trace =
         [Log INFO StartMsg, Request [],
          Log INFO (RootCodesMsg [''A'', ''B'']),
          Log INFO (FetchingMsg ''A''), Request ''A'',
          Write ''icd_data/icd10_A.json'' (Dumped payload_A),
          Log INFO (SavedMsg ''A'' ''icd_data/icd10_A.json''),
          Log INFO (FetchingMsg ''A.1''), Request ''A.1'', Sleep ''A.1'' (1 / 2),
          Sleep ''A'' (1 / 2),
          Log INFO (FetchingMsg ''B''), Request ''B'', Sleep ''B'' (1 / 2),
          Log INFO CompleteMsg],
       dirs = {''icd_data''},
       files = [''icd_data/icd10_A.json'' \<mapsto> Dumped payload_A] \<rparr>"

text \<open>
  A listing whose three children \<open>A.1\<close>, \<open>A/1\<close> (sent as \<open>A%2F1\<close>) and \<open>A_1\<close>
  each have a record of their own.
\<close>

definition payload_of :: "string \<Rightarrow> json" where
  "payload_of code = JObj [(''code'', JStr code)]"

definition collision_remote :: "string \<Rightarrow> http_result" where
  "collision_remote url =
     (if url = icd_url [] then
        Response (JObj [(''child'',
          JArr [JStr ''https://host/path/A.1'', JStr ''https://host/path/A%2F1'',
                JStr ''https://host/path/A_1''])])
      else if url = icd_url ''A.1'' then Response (payload_of ''A.1'')
      else if url = icd_url ''A/1'' then Response (payload_of ''A/1'')
      else if url = icd_url ''A_1'' then Response (payload_of ''A_1'')
      else RequestException ''404 Client Error'')"

definition collision_result :: state where
  "collision_result =
     \<lparr> trace =
         [Log INFO StartMsg, Request [],
          Log INFO (RootCodesMsg [''A.1'', ''A/1'', ''A_1'']),
          Log INFO (FetchingMsg ''A.1''), Request ''A.1'',
          Write ''icd_data/icd10_A_1.json'' (Dumped (payload_of ''A.1'')),
          Log INFO (SavedMsg ''A.1'' ''icd_data/icd10_A_1.json''),
          Sleep ''A.1'' (1 / 2),
          Log INFO (FetchingMsg ''A/1''), Request ''A/1'',
          Write ''icd_data/icd10_A_1.json'' (Dumped (payload_of ''A/1'')),
          Log INFO (SavedMsg ''A/1'' ''icd_data/icd10_A_1.json''),
          Sleep ''A/1'' (1 / 2),
          Log INFO (FetchingMsg ''A_1''), Request ''A_1'',
          Write ''icd_data/icd10_A_1.json'' (Dumped (payload_of ''A_1'')),
          Log INFO (SavedMsg ''A_1'' ''icd_data/icd10_A_1.json''),
          Sleep ''A_1'' (1 / 2),
          Log INFO CompleteMsg],
       dirs = {''icd_data''},
       files = [''icd_data/icd10_A_1.json'' \<mapsto> Dumped (payload_of ''A_1'')] \<rparr>"

text \<open>
  A remote on which \<open>B\<close> is out of service, while \<open>A\<close> and its child \<open>A.1\<close> answer.
\<close>

definition outage_remote :: "string \<Rightarrow> http_result" where
  "outage_remote url =
     (if url = icd_url ''B'' then RequestException ''503 Server Error''
      else if url = icd_url ''A'' then Response payload_A
      else if url = icd_url ''A.1'' then Response (payload_of ''A.1'')
      else RequestException ''404 Client Error'')"

definition outage_result :: state where
  "outage_result =
     \<lparr> trace =
         [Log INFO (FetchingMsg ''B''), Request ''B'',
          Log ERROR (FetchErrorMsg ''B'' ''503 Server Error''), Sleep ''B'' (1 / 2),
          Log INFO (FetchingMsg ''A''), Request ''A'',
          Write ''icd_data/icd10_A.json'' (Dumped payload_A),
          Log INFO (SavedMsg ''A'' ''icd_data/icd10_A.json''),
          Log INFO (FetchingMsg ''A.1''), Request ''A.1'',
          Write ''icd_data/icd10_A_1.json'' (Dumped (payload_of ''A.1'')),
          Log INFO (SavedMsg ''A.1'' ''icd_data/icd10_A_1.json''),
          Sleep ''A.1'' (1 / 2), Sleep ''A'' (1 / 2)],
       dirs = {''icd_data''},
       files = [''icd_data/icd10_A.json'' \<mapsto> Dumped payload_A,
                ''icd_data/icd10_A_1.json'' \<mapsto> Dumped (payload_of ''A.1'')] \<rparr>"

text \<open>
  A machine on which no directory can be created, and one on which no file can be
  opened for writing.
\<close>

definition unwritable :: "env \<Rightarrow> env" where
  "unwritable e = e\<lparr>makedirs := \<lambda>d. Some ''[Errno 13] Permission denied''\<rparr>"

definition locked :: "env \<Rightarrow> env" where
  "locked e = e\<lparr>open_write := \<lambda>f data. OpenFails ''[Errno 13] Permission denied''\<rparr>"

text \<open>A remote whose root listing carries \<open>refs\<close> under \<open>child\<close>.\<close>

definition listing_remote :: "json \<Rightarrow> string \<Rightarrow> http_result" where
  "listing_remote refs url =
     (if url = icd_url [] then Response (JObj [(''child'', refs)])
      else RequestException ''404 Client Error'')"





section \<open>Evaluating concrete runs\<close>

declare process_icd_code.simps [simp del]

lemmas run_defs =
  process_icd_code.simps main_def get_root_codes_def fetch_icd_data_def icd_url_def emit_def logger_def
  save_icd_data_def path_exists_def icd_filename_def os_path_join_def replace_char_def
  time_sleep_def last_segment_def Let_def

lemmas world_defs = served_def default_cfg_def empty_state_def

lemma char_of_slash: "char_of (47 :: nat) = CHR ''/''"
  by code_simp

section \<open>The recursion, one level at a time\<close>

lemma process_icd_code_Suc:
  "process_icd_code (Suc n) e cfg code st =
     (case fetch_icd_data e code (token cfg) (logger INFO (FetchingMsg code) st) of
        (data, st1) \<Rightarrow>
          if truthy data then
            (case save_icd_data e data code (output_dir cfg) st1 of
               Inl err \<Rightarrow> Some (Inl err)
             | Inr st2 \<Rightarrow>
                 (case child_items data of
                    Inl err \<Rightarrow> Some (Inl (err, st2))
                  | Inr items \<Rightarrow>
                      and_then (for_each (visit_child (process_icd_code n e cfg) e) items st2)
                        (\<lambda>st3. Some (time_sleep code (delay cfg) st3))))
          else Some (time_sleep code (delay cfg) st1))"
proof -
  have body: "visit_child (process_icd_code n e cfg) e =
      (\<lambda>child_url s. case child_code e child_url of
          Inl err \<Rightarrow> Some (Inl (err, s)) | Inr c \<Rightarrow> process_icd_code n e cfg c s)"
    by (simp add: fun_eq_iff visit_child_def)
  show ?thesis
    unfolding body process_icd_code.simps child_items_def and_then_def
    by (simp split: prod.split sum.split bool.split option.split)
qed

lemma for_each_Cons: "for_each f (x # xs) st = and_then (f x st) (for_each f xs)"
  by (simp add: and_then_def split: option.splits sum.splits)

section \<open>The trace is never read\<close>

text \<open>
  A run started with a longer trace does the same and ends with the same entries added:
  nothing in the script reads the trace.
\<close>

lemma map_result_simps [simp]:
  "map_result g (Inl (err, s)) = Inl (err, g s)"
  "map_result g (Inr s) = Inr (g s)"
  by (simp_all add: map_result_def)

lemma emit_prepend: "emit ev (prepend p s) = prepend p (emit ev s)"
  by (simp add: emit_def prepend_def)

lemma logger_prepend: "logger lvl m (prepend p s) = prepend p (logger lvl m s)"
  by (simp add: logger_def emit_prepend)

lemma fetch_prepend:
  "fetch_icd_data e code tok (prepend p s) =
     (case fetch_icd_data e code tok s of (data, s') \<Rightarrow> (data, prepend p s'))"
  by (simp add: fetch_icd_data_def emit_prepend logger_prepend Let_def split: http_result.split)

lemma path_exists_prepend: "path_exists d (prepend p s) = path_exists d s"
  by (simp add: path_exists_def prepend_def)

lemma save_prepend:
  "save_icd_data e data code dir (prepend p s) =
     map_result (prepend p) (save_icd_data e data code dir s)"
  by (simp add: save_icd_data_def path_exists_def Let_def logger_def emit_def prepend_def
      split: option.split write_result.split)

lemma sleep_prepend:
  "time_sleep code d (prepend p s) = map_result (prepend p) (time_sleep code d s)"
  by (simp add: time_sleep_def emit_prepend)

lemma for_each_prepend:
  assumes "\<And>x s. f x (prepend p s) = map_option (map_result (prepend p)) (f x s)"
  shows "for_each f xs (prepend p s) = map_option (map_result (prepend p)) (for_each f xs s)"
proof (induction xs arbitrary: s)
  case Nil
  show ?case by simp
next
  case (Cons x xs)
  show ?case
  proof (cases "f x s")
    case None
    then show ?thesis by (simp add: assms)
  next
    case (Some r)
    then show ?thesis
      by (cases r) (auto simp: assms Cons.IH)
  qed
qed

lemma process_prepend:
  "process_icd_code n e cfg code (prepend p s) =
     map_option (map_result (prepend p)) (process_icd_code n e cfg code s)"
proof (induction n arbitrary: code s)
  case 0
  show ?case by (simp add: process_icd_code.simps)
next
  case (Suc n)
  have loop: "for_each (visit_child (process_icd_code n e cfg) e) items (prepend p t) =
      map_option (map_result (prepend p)) (for_each (visit_child (process_icd_code n e cfg) e) items t)"
    for items t
    by (rule for_each_prepend) (simp add: visit_child_def Suc.IH split: sum.split)
  obtain data s1 where f: "fetch_icd_data e code (token cfg) (logger INFO (FetchingMsg code) s) = (data, s1)"
    by (cases "fetch_icd_data e code (token cfg) (logger INFO (FetchingMsg code) s)")
  show ?case
  proof (cases "truthy data")
    case False
    then show ?thesis
      by (simp add: process_icd_code_Suc logger_prepend fetch_prepend f sleep_prepend)
  next
    case True
    show ?thesis
    proof (cases "save_icd_data e data code (output_dir cfg) s1")
      case (Inl a)
      then show ?thesis
        by (cases a) (simp add: process_icd_code_Suc logger_prepend fetch_prepend f save_prepend True)
    next
      case (Inr s2)
      show ?thesis
      proof (cases "child_items data")
        case (Inl err)
        then show ?thesis
          by (simp add: process_icd_code_Suc logger_prepend fetch_prepend f save_prepend True Inr)
      next
        case items: (Inr items)
        show ?thesis
        proof (cases "for_each (visit_child (process_icd_code n e cfg) e) items s2")
          case None
          then show ?thesis
            by (simp add: process_icd_code_Suc logger_prepend fetch_prepend f save_prepend True Inr
                items loop and_then_def)
        next
          case (Some r)
          then show ?thesis
            by (cases r)
              (auto simp: process_icd_code_Suc logger_prepend fetch_prepend f save_prepend True Inr
                items loop and_then_def sleep_prepend)
        qed
      qed
    qed
  qed
qed

lemma visit_child_prepend:
  "visit_child (process_icd_code n e cfg) e x (prepend p s) =
     map_option (map_result (prepend p)) (visit_child (process_icd_code n e cfg) e x s)"
  by (simp add: visit_child_def process_prepend split: sum.split)

lemma map_result_comp: "map_result g (map_result h r) = map_result (\<lambda>s. g (h s)) r"
  by (cases r) auto

lemma for_each_spliced:
  assumes "\<And>x p s. f x (prepend p s) = map_option (map_result (prepend p)) (f x s)"
  shows "for_each f xs (st\<lparr>trace := trace st @ evs\<rparr>) =
           map_option (map_result (splice (length (trace st)) evs)) (for_each f xs st)"
proof -
  let ?s0 = "st\<lparr>trace := []\<rparr>"
  have a: "st\<lparr>trace := trace st @ evs\<rparr> = prepend (trace st @ evs) ?s0"
    by (simp add: prepend_def)
  have b: "st = prepend (trace st) ?s0"
    by (simp add: prepend_def)
  have c: "splice (length (trace st)) evs (prepend (trace st) s) = prepend (trace st @ evs) s" for s
    by (simp add: splice_def prepend_def)
  have "for_each f xs (st\<lparr>trace := trace st @ evs\<rparr>) =
      map_option (map_result (prepend (trace st @ evs))) (for_each f xs ?s0)"
    unfolding a by (rule for_each_prepend) (rule assms)
  moreover have "for_each f xs st = map_option (map_result (prepend (trace st))) (for_each f xs ?s0)"
    by (subst b, rule for_each_prepend) (rule assms)
  ultimately show ?thesis
    by (simp add: option.map_comp comp_def map_result_comp c)
qed

section \<open>Storage file names\<close>

text \<open>
  C6. For every code, the file written is \<open>output_dir/icd10_<key>.json\<close>, joined as
  \<^verbatim>\<open>os.path.join\<close> joins (no second slash after a directory that ends in one, no
  slash after the empty directory), where the key is the code with each \<open>.\<close> and each
  \<open>/\<close> turned into \<open>_\<close> and every other character kept in place.
\<close>

theorem icd_filename_sanitized:
  "icd_filename code dir =
     (if dir = [] \<or> last dir = CHR ''/'' then dir else dir @ ''/'')
       @ ''icd10_''
       @ map (\<lambda>c. if c = CHR ''.'' \<or> c = CHR ''/'' then CHR ''_'' else c) code
       @ ''.json''"
  by (simp add: icd_filename_def os_path_join_def replace_char_def)

text \<open>
  C9. The file name is not an injective function of the code: \<open>A.1\<close>, \<open>A/1\<close> and
  \<open>A_1\<close> share one name. In a run that visits all three, each record is saved and
  logged at level INFO only, and the file holds the record saved last.
\<close>

theorem icd_filename_not_injective:
  "icd_filename ''A.1'' dir = icd_filename ''A/1'' dir
   \<and> icd_filename ''A.1'' dir = icd_filename ''A_1'' dir
   \<and> \<not> inj (\<lambda>code. icd_filename code dir)
   \<and> main (Suc n) (served collision_remote) default_cfg empty_state = Some (Inr collision_result)
   \<and> files collision_result = [''icd_data/icd10_A_1.json'' \<mapsto> Dumped (payload_of ''A_1'')]
   \<and> set (levels (trace collision_result)) = {INFO}"
proof -
  have same: "icd_filename ''A.1'' dir = icd_filename ''A_1'' dir"
    by (simp add: icd_filename_def replace_char_def)
  have "''A.1'' \<noteq> ''A_1''"
    by simp
  with same have "\<not> inj (\<lambda>code. icd_filename code dir)"
    by (auto simp: inj_def)
  moreover have "icd_filename ''A.1'' dir = icd_filename ''A/1'' dir"
    by (simp add: icd_filename_def replace_char_def)
  moreover have
    "main (Suc n) (served collision_remote) default_cfg empty_state = Some (Inr collision_result)"
    by (simp add: run_defs world_defs collision_remote_def collision_result_def payload_of_def
        hex_digit_def char_of_slash)
  moreover have "set (levels (trace collision_result)) = {INFO}"
    by (simp add: collision_result_def)
  ultimately show ?thesis
    using same by (simp add: collision_result_def)
qed

section \<open>The end-to-end scenario\<close>

text \<open>
  C1, as stated, fails: in the scenario the run ends normally in \<open>scenario_result\<close>,
  where neither \<open>A.1\<close> nor \<open>B\<close> has a file.
\<close>

theorem scenario_three_files_counterexample:
  "main 2 (served scenario_remote) default_cfg empty_state = Some (Inr scenario_result)
   \<and> files scenario_result ''icd_data/icd10_A_1.json'' = None
   \<and> files scenario_result ''icd_data/icd10_B.json'' = None"
  by (simp add: run_defs world_defs scenario_remote_def scenario_result_def payload_A_def
      numeral_2_eq_2)

text \<open>
  C1, amended. In the scenario the run requests the root listing, \<open>A\<close>, \<open>A.1\<close> and
  \<open>B\<close>, in this order, and persists exactly one record, that of \<open>A\<close>: the empty
  objects answered for \<open>A.1\<close> and \<open>B\<close> are falsy and are not saved, and the payload of
  the root listing is never saved either.
\<close>

theorem scenario_persists_only_A:
  "main (Suc (Suc n)) (served scenario_remote) default_cfg empty_state = Some (Inr scenario_result)
   \<and> dom (files scenario_result) = {''icd_data/icd10_A.json''}
   \<and> files scenario_result ''icd_data/icd10_A.json'' = Some (Dumped payload_A)
   \<and> visits (trace scenario_result) = [[], ''A'', ''A.1'', ''B'']"
  by (simp add: run_defs world_defs scenario_remote_def scenario_result_def payload_A_def)

section \<open>Falsy payloads and failed fetches\<close>

text \<open>
  C8. When the fetch succeeds with a falsy payload, \<^verbatim>\<open>process_icd_code\<close> logs the
  fetch, requests the code and sleeps, and does nothing else: no write, no further
  request, files and directories as before. With a failing fetch in its place the run
  is the same but for the error entry that \<^verbatim>\<open>fetch_icd_data\<close> logs. (A negative
  delay makes \<^verbatim>\<open>time.sleep\<close> raise in both.)
\<close>

theorem falsy_payload_like_failure:
  assumes "http_get e (icd_url code) (token cfg) = Response data" and "\<not> truthy data"
  shows "process_icd_code (Suc n) e cfg code st =
           Some (if delay cfg < 0
                 then Inl (ValueError, st\<lparr>trace := trace st @ [Log INFO (FetchingMsg code), Request code]\<rparr>)
                 else Inr (st\<lparr>trace := trace st @ [Log INFO (FetchingMsg code), Request code, Sleep code (delay cfg)]\<rparr>))
         \<and> process_icd_code (Suc n) (e\<lparr>http_get := \<lambda>url tok. RequestException cause\<rparr>) cfg code st =
           Some (if delay cfg < 0
                 then Inl (ValueError, st\<lparr>trace := trace st @ [Log INFO (FetchingMsg code), Request code, Log ERROR (FetchErrorMsg code cause)]\<rparr>)
                 else Inr (st\<lparr>trace := trace st @ [Log INFO (FetchingMsg code), Request code, Log ERROR (FetchErrorMsg code cause), Sleep code (delay cfg)]\<rparr>))"
  using assms
  by (simp add: process_icd_code_Suc fetch_icd_data_def logger_def emit_def time_sleep_def)

theorem falsy_payload_like_failure_witness:
  "http_get (served scenario_remote) (icd_url ''B'') (token default_cfg) = Response (JObj [])
   \<and> \<not> truthy (JObj [])
   \<and> process_icd_code (Suc 0) (served scenario_remote) default_cfg ''B'' empty_state =
       Some (Inr \<lparr> trace = [Log INFO (FetchingMsg ''B''), Request ''B'', Sleep ''B'' (1 / 2)],
                    dirs = {}, files = Map.empty \<rparr>)"
proof -
  have h1: "http_get (served scenario_remote) (icd_url ''B'') (token default_cfg) = Response (JObj [])"
    by (simp add: served_def scenario_remote_def icd_url_def)
  have h2: "\<not> truthy (JObj [])"
    by simp
  from falsy_payload_like_failure [OF h1 h2, where n = 0 and st = empty_state]
  have "process_icd_code (Suc 0) (served scenario_remote) default_cfg ''B'' empty_state =
       Some (Inr \<lparr> trace = [Log INFO (FetchingMsg ''B''), Request ''B'', Sleep ''B'' (1 / 2)],
                    dirs = {}, files = Map.empty \<rparr>)"
    by (simp add: world_defs)
  with h1 h2 show ?thesis
    by blast
qed

text \<open>
  C3. When the fetch of a node fails and the delay is not negative, the call logs the
  failure at level ERROR, requests no other code and returns normally. The loop it was
  called from, over root codes or over the children of a parent, then goes on with the
  remaining siblings exactly as it would have without the failed node: same outcome,
  same files and directories, the same trace but for the four entries of the failed
  node.
\<close>

theorem fetch_failure_isolated:
  assumes "http_get e (icd_url code) (token cfg) = RequestException cause"
    and "0 \<le> delay cfg"
  shows "process_icd_code (Suc n) e cfg code st =
           Some (Inr (st\<lparr>trace := trace st @ failed_fetch_events code cause (delay cfg)\<rparr>))
       \<and> visits (failed_fetch_events code cause (delay cfg)) = [code]
       \<and> levels (failed_fetch_events code cause (delay cfg)) = [INFO, ERROR]
       \<and> for_each (process_icd_code (Suc n) e cfg) (code # rest) st =
           map_option (map_result (splice (length (trace st)) (failed_fetch_events code cause (delay cfg))))
             (for_each (process_icd_code (Suc n) e cfg) rest st)
       \<and> (child_code e child_url = Inr code \<longrightarrow>
           for_each (visit_child (process_icd_code (Suc n) e cfg) e) (child_url # items) st =
             map_option (map_result (splice (length (trace st)) (failed_fetch_events code cause (delay cfg))))
               (for_each (visit_child (process_icd_code (Suc n) e cfg) e) items st))"
proof -
  have node: "process_icd_code (Suc n) e cfg code st =
      Some (Inr (st\<lparr>trace := trace st @ failed_fetch_events code cause (delay cfg)\<rparr>))" for st
    using assms
    by (simp add: process_icd_code_Suc fetch_icd_data_def logger_def emit_def time_sleep_def
        failed_fetch_events_def)
  have roots: "for_each (process_icd_code (Suc n) e cfg) (code # rest) st =
      for_each (process_icd_code (Suc n) e cfg) rest
        (st\<lparr>trace := trace st @ failed_fetch_events code cause (delay cfg)\<rparr>)"
    by (simp add: node)
  have children: "for_each (visit_child (process_icd_code (Suc n) e cfg) e) (child_url # items) st =
      for_each (visit_child (process_icd_code (Suc n) e cfg) e) items
        (st\<lparr>trace := trace st @ failed_fetch_events code cause (delay cfg)\<rparr>)"
    if "child_code e child_url = Inr code"
    using that by (simp add: visit_child_def node)
  have roots': "for_each (process_icd_code (Suc n) e cfg) (code # rest) st =
      map_option (map_result (splice (length (trace st)) (failed_fetch_events code cause (delay cfg))))
        (for_each (process_icd_code (Suc n) e cfg) rest st)"
    unfolding roots by (rule for_each_spliced) (rule process_prepend)
  have children': "for_each (visit_child (process_icd_code (Suc n) e cfg) e) (child_url # items) st =
      map_option (map_result (splice (length (trace st)) (failed_fetch_events code cause (delay cfg))))
        (for_each (visit_child (process_icd_code (Suc n) e cfg) e) items st)"
    if "child_code e child_url = Inr code"
    unfolding children [OF that] by (rule for_each_spliced) (rule visit_child_prepend)
  have "visits (failed_fetch_events code cause (delay cfg)) = [code]"
    and "levels (failed_fetch_events code cause (delay cfg)) = [INFO, ERROR]"
    by (simp_all add: failed_fetch_events_def)
  with node roots' children' show ?thesis
    by blast
qed

theorem fetch_failure_isolated_witness:
  "http_get (served outage_remote) (icd_url ''B'') (token default_cfg)
      = RequestException ''503 Server Error''
   \<and> 0 \<le> delay default_cfg
   \<and> for_each (process_icd_code (Suc (Suc 0)) (served outage_remote) default_cfg) [''B'', ''A'']
        empty_state = Some (Inr outage_result)"
proof -
  have h1: "http_get (served outage_remote) (icd_url ''B'') (token default_cfg)
      = RequestException ''503 Server Error''"
    by (simp add: served_def outage_remote_def)
  have h2: "0 \<le> delay default_cfg"
    by (simp add: default_cfg_def)
  have rest: "for_each (process_icd_code (Suc (Suc 0)) (served outage_remote) default_cfg) [''A'']
      empty_state =
      Some (Inr \<lparr> trace =
         [Log INFO (FetchingMsg ''A''), Request ''A'',
          Write ''icd_data/icd10_A.json'' (Dumped payload_A),
          Log INFO (SavedMsg ''A'' ''icd_data/icd10_A.json''),
          Log INFO (FetchingMsg ''A.1''), Request ''A.1'',
          Write ''icd_data/icd10_A_1.json'' (Dumped (payload_of ''A.1'')),
          Log INFO (SavedMsg ''A.1'' ''icd_data/icd10_A_1.json''),
          Sleep ''A.1'' (1 / 2), Sleep ''A'' (1 / 2)],
       dirs = {''icd_data''},
       files = [''icd_data/icd10_A.json'' \<mapsto> Dumped payload_A,
                ''icd_data/icd10_A_1.json'' \<mapsto> Dumped (payload_of ''A.1'')] \<rparr>)"
    by (simp add: run_defs world_defs outage_remote_def payload_A_def payload_of_def)
  from fetch_failure_isolated [OF h1 h2, where n = "Suc 0" and rest = "[''A'']" and st = empty_state]
  have "for_each (process_icd_code (Suc (Suc 0)) (served outage_remote) default_cfg) [''B'', ''A'']
      empty_state =
      map_option (map_result (splice (length (trace empty_state))
          (failed_fetch_events ''B'' ''503 Server Error'' (delay default_cfg))))
        (for_each (process_icd_code (Suc (Suc 0)) (served outage_remote) default_cfg) [''A'']
          empty_state)"
    by blast
  then have "for_each (process_icd_code (Suc (Suc 0)) (served outage_remote) default_cfg) [''B'', ''A'']
      empty_state = Some (Inr outage_result)"
    unfolding rest
    by (simp add: splice_def failed_fetch_events_def outage_result_def world_defs)
  with h1 h2 show ?thesis
    by blast
qed

section \<open>Storage failures\<close>

text \<open>
  An \<^verbatim>\<open>IOError\<close> raised by \<^verbatim>\<open>open\<close> is caught: the error is logged and the
  children are visited.
\<close>

lemma open_failure_caught:
  "main 2 (locked (served scenario_remote)) default_cfg empty_state =
     Some (Inr
       \<lparr> trace =
           [Log INFO StartMsg, Request [],
            Log INFO (RootCodesMsg [''A'', ''B'']),
            Log INFO (FetchingMsg ''A''), Request ''A'',
            Log ERROR (SaveErrorMsg ''A'' ''[Errno 13] Permission denied''),
            Log INFO (FetchingMsg ''A.1''), Request ''A.1'', Sleep ''A.1'' (1 / 2),
            Sleep ''A'' (1 / 2),
            Log INFO (FetchingMsg ''B''), Request ''B'', Sleep ''B'' (1 / 2),
            Log INFO CompleteMsg],
         dirs = {''icd_data''}, files = Map.empty \<rparr>)"
  by (simp add: run_defs world_defs locked_def scenario_remote_def payload_A_def numeral_2_eq_2)

text \<open>
  C4 does not hold of the source: \<^verbatim>\<open>os.makedirs\<close> stands outside the
  \<^verbatim>\<open>try\<close>. When the output directory cannot be created, the \<^verbatim>\<open>OSError\<close>
  leaves \<^verbatim>\<open>save_icd_data\<close>, \<^verbatim>\<open>process_icd_code\<close> and \<^verbatim>\<open>main\<close>: nothing is
  logged, and neither the child \<open>A.1\<close> nor the sibling \<open>B\<close> is requested.
\<close>

theorem makedirs_failure_aborts:
  "main 2 (unwritable (served scenario_remote)) default_cfg empty_state =
     Some (Inl (OSError ''[Errno 13] Permission denied'',
       \<lparr> trace =
           [Log INFO StartMsg, Request [],
            Log INFO (RootCodesMsg [''A'', ''B'']),
            Log INFO (FetchingMsg ''A''), Request ''A''],
         dirs = {}, files = Map.empty \<rparr>))"
  by (simp add: run_defs world_defs unwritable_def scenario_remote_def payload_A_def numeral_2_eq_2)

section \<open>Root codes\<close>

lemma fallback_is_roman: "fallback_root_codes = map roman [1..<23]"
  by code_simp

text \<open>
  C5, as stated, fails twice: an empty child list is returned as it is, so the crawl
  starts from no code at all; and a \<open>child\<close> entry that cannot be iterated raises
  instead of giving the fallback list.
\<close>

theorem get_root_codes_counterexample:
  "get_root_codes (served (listing_remote (JArr []))) ''secret'' empty_state =
     Inr ([], \<lparr> trace = [Request []], dirs = {}, files = Map.empty \<rparr>)
   \<and> get_root_codes (served (listing_remote (JInt 5))) ''secret'' empty_state =
     Inl (TypeError, \<lparr> trace = [Request []], dirs = {}, files = Map.empty \<rparr>)"
  by (simp add: run_defs world_defs listing_remote_def)

lemma decode_all_strings:
  "decode_all e (map JStr urls) = Inr (map (\<lambda>url. unquote e (last_segment url)) urls)"
  by (induction urls) auto

text \<open>
  C5, amended. When the root listing is an object whose \<open>child\<close> entry is a list of
  strings, \<^verbatim>\<open>get_root_codes\<close> returns their decoded last segments in listing order
  (none for the empty list). When the fetch fails, or the payload is not an object, or
  has no \<open>child\<close> key, it logs a warning and returns the fallback list, which is the 22
  Roman numerals I to XXII in order.
\<close>

theorem get_root_codes_cases:
  "(http_get e (icd_url []) tok = Response (JObj kvs)
      \<and> map_of kvs ''child'' = Some (JArr (map JStr urls))
      \<longrightarrow> get_root_codes e tok st =
            Inr (map (\<lambda>url. unquote e (last_segment url)) urls, emit (Request []) st))
   \<and> (http_get e (icd_url []) tok = RequestException cause
      \<longrightarrow> get_root_codes e tok st =
            Inr (fallback_root_codes,
                 logger WARNING RootWarningMsg
                   (logger ERROR (FetchErrorMsg [] cause) (emit (Request []) st))))
   \<and> (http_get e (icd_url []) tok = Response data
      \<and> (\<not> is_dict data \<or> in_child data = Inr False)
      \<longrightarrow> get_root_codes e tok st =
            Inr (fallback_root_codes, logger WARNING RootWarningMsg (emit (Request []) st)))
   \<and> fallback_root_codes = map roman [1..<23]
   \<and> length fallback_root_codes = 22"
proof -
  have listed: "get_root_codes e tok st =
      Inr (map (\<lambda>url. unquote e (last_segment url)) urls, emit (Request []) st)"
    if "http_get e (icd_url []) tok = Response (JObj kvs)"
      and "map_of kvs ''child'' = Some (JArr (map JStr urls))"
  proof -
    from that(2) have "''child'' \<in> fst ` set kvs"
      by (metis map_of_eq_None_iff option.distinct(1))
    with that show ?thesis
      by (simp add: get_root_codes_def fetch_icd_data_def decode_all_strings)
  qed
  have failed: "get_root_codes e tok st =
      Inr (fallback_root_codes,
           logger WARNING RootWarningMsg
             (logger ERROR (FetchErrorMsg [] cause) (emit (Request []) st)))"
    if "http_get e (icd_url []) tok = RequestException cause"
    using that by (simp add: get_root_codes_def fetch_icd_data_def)
  have other: "get_root_codes e tok st =
      Inr (fallback_root_codes, logger WARNING RootWarningMsg (emit (Request []) st))"
    if "http_get e (icd_url []) tok = Response data"
      and "\<not> is_dict data \<or> in_child data = Inr False"
    using that by (auto simp: get_root_codes_def fetch_icd_data_def)
  have "length fallback_root_codes = 22"
    by (simp add: fallback_root_codes_def)
  with listed failed other fallback_is_roman show ?thesis
    by blast
qed

theorem get_root_codes_cases_witness:
  "get_root_codes (served scenario_remote) ''secret'' empty_state =
     Inr ([''A'', ''B''], \<lparr> trace = [Request []], dirs = {}, files = Map.empty \<rparr>)
   \<and> get_root_codes (served outage_remote) ''secret'' empty_state =
     Inr (fallback_root_codes,
          \<lparr> trace = [Request [], Log ERROR (FetchErrorMsg [] ''404 Client Error''),
                      Log WARNING RootWarningMsg],
            dirs = {}, files = Map.empty \<rparr>)
   \<and> get_root_codes (served (\<lambda>url. Response (JArr [JStr ''child'']))) ''secret'' empty_state =
     Inr (fallback_root_codes,
          \<lparr> trace = [Request [], Log WARNING RootWarningMsg], dirs = {}, files = Map.empty \<rparr>)"
proof -
  have listed: "http_get (served scenario_remote) (icd_url []) ''secret'' =
        Response (JObj [(''child'', JArr [JStr ''https://host/path/A'', JStr ''https://host/path/B''])])
      \<and> map_of [(''child'', JArr [JStr ''https://host/path/A'', JStr ''https://host/path/B''])] ''child''
          = Some (JArr (map JStr [''https://host/path/A'', ''https://host/path/B'']))"
    by (simp add: served_def scenario_remote_def)
  have failed: "http_get (served outage_remote) (icd_url []) ''secret'' =
      RequestException ''404 Client Error''"
    by (simp add: served_def outage_remote_def icd_url_def)
  have other: "http_get (served (\<lambda>url. Response (JArr [JStr ''child'']))) (icd_url []) ''secret'' =
        Response (JArr [JStr ''child''])
      \<and> (\<not> is_dict (JArr [JStr ''child'']) \<or> in_child (JArr [JStr ''child'']) = Inr False)"
    by (simp add: served_def)
  from listed
    get_root_codes_cases [where e = "served scenario_remote" and tok = "''secret''"
      and st = empty_state
      and kvs = "[(''child'', JArr [JStr ''https://host/path/A'', JStr ''https://host/path/B''])]"
      and urls = "[''https://host/path/A'', ''https://host/path/B'']"]
  have "get_root_codes (served scenario_remote) ''secret'' empty_state =
      Inr (map (\<lambda>url. unquote (served scenario_remote) (last_segment url))
             [''https://host/path/A'', ''https://host/path/B''],
           emit (Request []) empty_state)"
    by blast
  then have one: "get_root_codes (served scenario_remote) ''secret'' empty_state =
      Inr ([''A'', ''B''], \<lparr> trace = [Request []], dirs = {}, files = Map.empty \<rparr>)"
    by (simp add: served_def last_segment_def emit_def empty_state_def)
  from failed
    get_root_codes_cases [where e = "served outage_remote" and tok = "''secret''"
      and st = empty_state and cause = "''404 Client Error''"]
  have "get_root_codes (served outage_remote) ''secret'' empty_state =
      Inr (fallback_root_codes,
           logger WARNING RootWarningMsg
             (logger ERROR (FetchErrorMsg [] ''404 Client Error'') (emit (Request []) empty_state)))"
    by blast
  then have two: "get_root_codes (served outage_remote) ''secret'' empty_state =
      Inr (fallback_root_codes,
           \<lparr> trace = [Request [], Log ERROR (FetchErrorMsg [] ''404 Client Error''),
                       Log WARNING RootWarningMsg],
             dirs = {}, files = Map.empty \<rparr>)"
    by (simp add: logger_def emit_def empty_state_def)
  from other
    get_root_codes_cases [where e = "served (\<lambda>url. Response (JArr [JStr ''child'']))"
      and tok = "''secret''" and st = empty_state and data = "JArr [JStr ''child'']"]
  have "get_root_codes (served (\<lambda>url. Response (JArr [JStr ''child'']))) ''secret'' empty_state =
      Inr (fallback_root_codes, logger WARNING RootWarningMsg (emit (Request []) empty_state))"
    by blast
  then have three:
    "get_root_codes (served (\<lambda>url. Response (JArr [JStr ''child'']))) ''secret'' empty_state =
      Inr (fallback_root_codes,
           \<lparr> trace = [Request [], Log WARNING RootWarningMsg], dirs = {}, files = Map.empty \<rparr>)"
    by (simp add: logger_def emit_def empty_state_def)
  from one two three show ?thesis
    by blast
qed

section \<open>Throttling in post-order\<close>













section \<open>Running the crawl again\<close>

lemma apply_writes_append:
  "apply_writes (xs @ ys) m = apply_writes ys (apply_writes xs m)"
proof (induction xs arbitrary: m)
  case Nil
  show ?case by simp
next
  case (Cons ev xs)
  then show ?case by (cases ev) (simp_all add: fun_upd_def)
qed

lemma map_add_single: "m ++ [f \<mapsto> c] = m(f \<mapsto> c)"
  by simp

lemma apply_writes_add: "apply_writes evs m = m ++ apply_writes evs Map.empty"
proof (induction evs arbitrary: m)
  case Nil
  show ?case by simp
next
  case (Cons ev es)
  show ?case
  proof (cases ev)
    case (Write f c)
    have "apply_writes (ev # es) m = apply_writes es (m(f \<mapsto> c))"
      using Write by (simp add: fun_upd_def)
    also have "\<dots> = m(f \<mapsto> c) ++ apply_writes es Map.empty"
      by (rule Cons.IH)
    also have "\<dots> = (m ++ [f \<mapsto> c]) ++ apply_writes es Map.empty"
      by (simp only: map_add_single)
    also have "\<dots> = m ++ ([f \<mapsto> c] ++ apply_writes es Map.empty)"
      by (rule map_add_assoc [symmetric])
    also have "[f \<mapsto> c] ++ apply_writes es Map.empty = apply_writes es [f \<mapsto> c]"
      by (rule Cons.IH [symmetric])
    also have "apply_writes es [f \<mapsto> c] = apply_writes (ev # es) Map.empty"
      using Write by (simp add: fun_upd_def)
    finally show ?thesis .
  next
    case (Log l m')
    then show ?thesis using Cons.IH [of m] by simp
  next
    case (Request c)
    then show ?thesis using Cons.IH [of m] by simp
  next
    case (Sleep c d)
    then show ?thesis using Cons.IH [of m] by simp
  qed
qed

lemma map_add_self: "d ++ d = (d :: string \<rightharpoonup> content)"
  by (rule ext) (simp add: map_add_def split: option.split)

lemma apply_writes_twice: "apply_writes evs (apply_writes evs m) = apply_writes evs m"
proof -
  have "apply_writes evs (apply_writes evs m) = apply_writes evs m ++ apply_writes evs Map.empty"
    by (rule apply_writes_add)
  also have "\<dots> = (m ++ apply_writes evs Map.empty) ++ apply_writes evs Map.empty"
    by (subst apply_writes_add [of evs m]) (rule refl)
  also have "\<dots> = m ++ apply_writes evs Map.empty"
    by (simp only: map_add_assoc [symmetric] map_add_self)
  also have "\<dots> = apply_writes evs m"
    by (rule apply_writes_add [symmetric])
  finally show ?thesis .
qed

lemma keeps_dir_refl: "keeps_dir e d s s"
  by (simp add: keeps_dir_def)

lemma keeps_dir_trans: "keeps_dir e d s t \<Longrightarrow> keeps_dir e d t u \<Longrightarrow> keeps_dir e d s u"
  by (auto simp: keeps_dir_def)

lemma raised_None: "raised r = None \<Longrightarrow> \<exists>s. r = Inr s"
  by (cases r) auto

lemma raised_Some: "raised r = Some err \<Longrightarrow> \<exists>s. r = Inl (err, s)"
  by (cases r) auto

lemma mirrored_return: "keeps_dir e d s t \<Longrightarrow> mirrored e d s t (Inr s) (Inr t)"
  by (simp add: mirrored_def keeps_dir_refl)

lemma mirrored_raise: "keeps_dir e d s t \<Longrightarrow> mirrored e d s t (Inl (err, s)) (Inl (err, t))"
  by (simp add: mirrored_def keeps_dir_refl)

lemma mirrored_keeps: "mirrored e d s t r r' \<Longrightarrow> keeps_dir e d (final r) (final r')"
  by (simp add: mirrored_def)

lemma mirrored_trans:
  assumes "mirrored e d s t (Inr s1) (Inr t1)" and "mirrored e d s1 t1 r r'"
  shows "mirrored e d s t r r'"
proof -
  from assms(1) obtain evs1 where 1: "trace s1 = trace s @ evs1" "trace t1 = trace t @ evs1"
    "files s1 = apply_writes evs1 (files s)" "files t1 = apply_writes evs1 (files t)"
    "keeps_dir e d s s1"
    by (auto simp: mirrored_def)
  from assms(2) obtain evs2 where 2: "trace (final r) = trace s1 @ evs2"
    "trace (final r') = trace t1 @ evs2"
    "files (final r) = apply_writes evs2 (files s1)"
    "files (final r') = apply_writes evs2 (files t1)"
    "keeps_dir e d s1 (final r)" "keeps_dir e d (final r) (final r')" "raised r' = raised r"
    by (auto simp: mirrored_def)
  have "trace (final r) = trace s @ (evs1 @ evs2)" "trace (final r') = trace t @ (evs1 @ evs2)"
    "files (final r) = apply_writes (evs1 @ evs2) (files s)"
    "files (final r') = apply_writes (evs1 @ evs2) (files t)"
    using 1 2 by (simp_all add: apply_writes_append)
  moreover have "keeps_dir e d s (final r)"
    using 1(5) 2(5) by (rule keeps_dir_trans)
  ultimately show ?thesis
    unfolding mirrored_def using 2(6,7) by blast
qed

lemma mirrored_and_then:
  assumes m: "mirrored e d s t q q'"
    and run: "and_then (Some q) f = Some r"
    and k: "\<And>s1 t1. keeps_dir e d s1 t1 \<Longrightarrow> f s1 = Some r \<Longrightarrow>
              \<exists>r'. g t1 = Some r' \<and> mirrored e d s1 t1 r r'"
  shows "\<exists>r'. and_then (Some q') g = Some r' \<and> mirrored e d s t r r'"
proof (cases q)
  case (Inl a)
  obtain err s1 where a: "a = (err, s1)" by (cases a)
  with Inl m have "raised q' = Some err" by (simp add: mirrored_def)
  then obtain t1 where "q' = Inl (err, t1)" using raised_Some by blast
  with Inl a run m show ?thesis by (auto simp: and_then_def)
next
  case (Inr s1)
  with m have "raised q' = None" by (simp add: mirrored_def)
  then obtain t1 where q': "q' = Inr t1" using raised_None by blast
  from m Inr q' have kd: "keeps_dir e d s1 t1" by (simp add: mirrored_def)
  from run Inr have "f s1 = Some r" by (simp add: and_then_def)
  from k [OF kd this] obtain r' where r': "g t1 = Some r'" "mirrored e d s1 t1 r r'" by blast
  from m Inr q' r'(2) have "mirrored e d s t r r'" by (auto intro: mirrored_trans)
  with r'(1) q' show ?thesis by (auto simp: and_then_def)
qed

lemma mirrored_emit:
  assumes "keeps_dir e d s t" and "\<And>f c. ev \<noteq> Write f c"
  shows "mirrored e d s t (Inr (emit ev s)) (Inr (emit ev t))"
proof -
  have "apply_writes [ev] m = m" for m
    using assms(2) by (cases ev) auto
  then show ?thesis
    using assms(1)
    by (auto simp: mirrored_def emit_def keeps_dir_def path_exists_def intro!: exI [of _ "[ev]"])
qed

lemma mirrored_sleep:
  assumes "keeps_dir e d s t"
  shows "mirrored e d s t (time_sleep code dl s) (time_sleep code dl t)"
  using assms mirrored_emit [OF assms, of "Sleep code dl"]
  by (simp add: time_sleep_def mirrored_raise)

lemma mirrored_fetch:
  assumes "keeps_dir e d s t" and "fetch_icd_data e code tok s = (data, s1)"
  shows "\<exists>t1. fetch_icd_data e code tok t = (data, t1) \<and> mirrored e d s t (Inr s1) (Inr t1)"
proof (cases "http_get e (icd_url code) tok")
  case (Response body)
  with assms(2) have "data = body" "s1 = emit (Request code) s"
    "fetch_icd_data e code tok t = (body, emit (Request code) t)"
    by (auto simp: fetch_icd_data_def Let_def)
  then show ?thesis
    using mirrored_emit [OF assms(1), of "Request code"] by simp
next
  case (RequestException cause)
  with assms(2) have *: "data = JNull"
    "s1 = emit (Log ERROR (FetchErrorMsg code cause)) (emit (Request code) s)"
    "fetch_icd_data e code tok t =
       (JNull, emit (Log ERROR (FetchErrorMsg code cause)) (emit (Request code) t))"
    by (auto simp: fetch_icd_data_def Let_def logger_def)
  have 1: "mirrored e d s t (Inr (emit (Request code) s)) (Inr (emit (Request code) t))"
    using mirrored_emit [OF assms(1), of "Request code"] by simp
  from mirrored_keeps [OF 1] have "keeps_dir e d (emit (Request code) s) (emit (Request code) t)"
    by simp
  from mirrored_emit [OF this, of "Log ERROR (FetchErrorMsg code cause)"]
  have "mirrored e d (emit (Request code) s) (emit (Request code) t) (Inr s1)
      (Inr (emit (Log ERROR (FetchErrorMsg code cause)) (emit (Request code) t)))"
    using * by simp
  with 1 * show ?thesis
    by (auto intro: mirrored_trans)
qed

lemma mirrored_save:
  assumes kd: "keeps_dir e dir s t"
  shows "mirrored e dir s t (save_icd_data e data code dir s) (save_icd_data e data code dir t)"
proof (cases "\<not> path_exists dir s \<and> makedirs e dir \<noteq> None")
  case True
  then obtain cause where c: "makedirs e dir = Some cause" and ns: "\<not> path_exists dir s"
    by auto
  with kd have nt: "\<not> path_exists dir t"
    by (auto simp: keeps_dir_def)
  from c ns nt show ?thesis
    using kd by (simp add: save_icd_data_def mirrored_raise)
next
  case False
  then have oks: "path_exists dir s \<or> makedirs e dir = None"
    by auto
  with kd have okt: "path_exists dir t \<or> makedirs e dir = None"
    by (auto simp: keeps_dir_def)
  define s1 where "s1 = (if path_exists dir s then s else s\<lparr>dirs := insert dir (dirs s)\<rparr>)"
  define t1 where "t1 = (if path_exists dir t then t else t\<lparr>dirs := insert dir (dirs t)\<rparr>)"
  let ?f = "icd_filename code dir"
  define k where "k = (\<lambda>u. if CHR 0x00 \<in> set ?f then Inl (ValueError, u)
           else case open_write e ?f data of
               WriteOk \<Rightarrow>
                 Inr (logger INFO (SavedMsg code ?f)
                       (emit (Write ?f (Dumped data))
                          (u\<lparr>files := (files u)(?f \<mapsto> Dumped data)\<rparr>)))
             | OpenFails cause \<Rightarrow> Inr (logger ERROR (SaveErrorMsg code cause) u)
             | DumpFails written cause \<Rightarrow>
                 Inr (logger ERROR (SaveErrorMsg code cause)
                       (emit (Write ?f (Partial written))
                          (u\<lparr>files := (files u)(?f \<mapsto> Partial written)\<rparr>))))"
  have ss: "save_icd_data e data code dir s = k s1"
    using oks by (auto simp: save_icd_data_def Let_def s1_def k_def)
  have st: "save_icd_data e data code dir t = k t1"
    using okt by (auto simp: save_icd_data_def Let_def t1_def k_def)
  have tr: "trace s1 = trace s" "files s1 = files s" "trace t1 = trace t" "files t1 = files t"
    by (simp_all add: s1_def t1_def)
  have ex: "path_exists dir s1" "path_exists dir t1"
    by (simp_all add: s1_def t1_def path_exists_def)
  have k1: "keeps_dir e dir s s1"
    using oks by (auto simp: keeps_dir_def s1_def path_exists_def)
  have grow: "path_exists dir (u\<lparr>files := (files u)(?f \<mapsto> c), trace := tr'\<rparr>)"
    if "path_exists dir u" for u c tr'
    using that by (auto simp: path_exists_def)
  have "mirrored e dir s t (k s1) (k t1)"
  proof (cases "CHR 0x00 \<in> set ?f")
    case True
    then show ?thesis
      using ex k1 tr by (simp add: mirrored_def keeps_dir_def k_def)
  next
    case nul: False
    show ?thesis
    proof (cases "open_write e ?f data")
      case WriteOk
      let ?evs = "[Write ?f (Dumped data), Log INFO (SavedMsg code ?f)]"
      let ?s' = "s1\<lparr>files := (files s1)(?f \<mapsto> Dumped data), trace := trace s1 @ ?evs\<rparr>"
      let ?t' = "t1\<lparr>files := (files t1)(?f \<mapsto> Dumped data), trace := trace t1 @ ?evs\<rparr>"
      have ks: "k s1 = Inr ?s'" and kt: "k t1 = Inr ?t'"
        using nul WriteOk by (simp_all add: k_def logger_def emit_def)
      have aw: "apply_writes ?evs m = m(?f \<mapsto> Dumped data)" for m
        by (simp add: fun_upd_def)
      have "path_exists dir ?s'" "path_exists dir ?t'"
        using ex by (auto intro: grow)
      then have "keeps_dir e dir ?s' ?t'" "keeps_dir e dir s ?s'"
        using k1 oks by (auto simp: keeps_dir_def)
      moreover have "trace ?s' = trace s @ ?evs" "trace ?t' = trace t @ ?evs"
        "files ?s' = apply_writes ?evs (files s)" "files ?t' = apply_writes ?evs (files t)"
        using tr by (simp_all only: aw) simp_all
      ultimately show ?thesis
        unfolding mirrored_def ks kt by (simp only: final.simps raised.simps) blast
    next
      case (OpenFails cause)
      let ?evs = "[Log ERROR (SaveErrorMsg code cause)]"
      let ?s' = "s1\<lparr>trace := trace s1 @ ?evs\<rparr>"
      let ?t' = "t1\<lparr>trace := trace t1 @ ?evs\<rparr>"
      have ks: "k s1 = Inr ?s'" and kt: "k t1 = Inr ?t'"
        using nul OpenFails by (simp_all add: k_def logger_def emit_def)
      have "path_exists dir ?s'" "path_exists dir ?t'"
        using ex by (auto simp: path_exists_def)
      then have "keeps_dir e dir ?s' ?t'" "keeps_dir e dir s ?s'"
        using k1 oks by (auto simp: keeps_dir_def)
      moreover have "trace ?s' = trace s @ ?evs" "trace ?t' = trace t @ ?evs"
        "files ?s' = apply_writes ?evs (files s)" "files ?t' = apply_writes ?evs (files t)"
        using tr by simp_all
      ultimately show ?thesis
        unfolding mirrored_def ks kt by (simp only: final.simps raised.simps) blast
    next
      case (DumpFails written cause)
      let ?evs = "[Write ?f (Partial written), Log ERROR (SaveErrorMsg code cause)]"
      let ?s' = "s1\<lparr>files := (files s1)(?f \<mapsto> Partial written), trace := trace s1 @ ?evs\<rparr>"
      let ?t' = "t1\<lparr>files := (files t1)(?f \<mapsto> Partial written), trace := trace t1 @ ?evs\<rparr>"
      have ks: "k s1 = Inr ?s'" and kt: "k t1 = Inr ?t'"
        using nul DumpFails by (simp_all add: k_def logger_def emit_def)
      have aw: "apply_writes ?evs m = m(?f \<mapsto> Partial written)" for m
        by (simp add: fun_upd_def)
      have "path_exists dir ?s'" "path_exists dir ?t'"
        using ex by (auto intro: grow)
      then have "keeps_dir e dir ?s' ?t'" "keeps_dir e dir s ?s'"
        using k1 oks by (auto simp: keeps_dir_def)
      moreover have "trace ?s' = trace s @ ?evs" "trace ?t' = trace t @ ?evs"
        "files ?s' = apply_writes ?evs (files s)" "files ?t' = apply_writes ?evs (files t)"
        using tr by (simp_all only: aw) simp_all
      ultimately show ?thesis
        unfolding mirrored_def ks kt by (simp only: final.simps raised.simps) blast
    qed
  qed
  with ss st show ?thesis by simp
qed

lemma for_each_mirrored:
  assumes step: "\<And>x s t r. keeps_dir e d s t \<Longrightarrow> f x s = Some r \<Longrightarrow>
      \<exists>r'. f x t = Some r' \<and> mirrored e d s t r r'"
    and kd: "keeps_dir e d s t"
    and run: "for_each f xs s = Some r"
  shows "\<exists>r'. for_each f xs t = Some r' \<and> mirrored e d s t r r'"
  using kd run
proof (induction xs arbitrary: s t)
  case Nil
  then show ?case by (auto intro: mirrored_return)
next
  case (Cons x xs)
  from Cons.prems(2) obtain q where q: "f x s = Some q"
    and rest: "and_then (Some q) (for_each f xs) = Some r"
    by (cases "f x s") (auto simp: for_each_Cons and_then_def)
  from step [OF Cons.prems(1) q] obtain q' where q': "f x t = Some q'" "mirrored e d s t q q'"
    by blast
  have "\<exists>r'. and_then (Some q') (for_each f xs) = Some r' \<and> mirrored e d s t r r'"
  proof (rule mirrored_and_then [OF q'(2) rest])
    fix s1 t1
    assume "keeps_dir e d s1 t1" "for_each f xs s1 = Some r"
    then show "\<exists>r'. for_each f xs t1 = Some r' \<and> mirrored e d s1 t1 r r'"
      by (rule Cons.IH)
  qed
  then show ?case
    using q'(1) by (simp add: and_then_def)
qed

lemma process_mirrored:
  assumes "keeps_dir e (output_dir cfg) s t" and "process_icd_code n e cfg code s = Some r"
  shows "\<exists>r'. process_icd_code n e cfg code t = Some r' \<and> mirrored e (output_dir cfg) s t r r'"
  using assms
proof (induction n arbitrary: code s t r)
  case 0
  then show ?case by (simp add: process_icd_code.simps)
next
  case (Suc n)
  let ?d = "output_dir cfg"
  let ?loop = "for_each (visit_child (process_icd_code n e cfg) e)"
  have child: "\<exists>r'. visit_child (process_icd_code n e cfg) e x t = Some r' \<and> mirrored e ?d s t r r'"
    if "keeps_dir e ?d s t" "visit_child (process_icd_code n e cfg) e x s = Some r" for x s t r
    using that Suc.IH
    by (cases "child_code e x") (auto simp: visit_child_def intro: mirrored_raise)
  have loop: "\<exists>r'. ?loop items t = Some r' \<and> mirrored e ?d s t r r'"
    if "keeps_dir e ?d s t" "?loop items s = Some r" for items s t r
    by (rule for_each_mirrored [where f = "visit_child (process_icd_code n e cfg) e", OF child that])
  have slp: "\<exists>r'. Some (time_sleep code (delay cfg) t) = Some r' \<and> mirrored e ?d s t r r'"
    if "keeps_dir e ?d s t" "Some (time_sleep code (delay cfg) s) = Some r" for s t r
    using that mirrored_sleep by auto
  have m0: "mirrored e ?d s t (Inr (logger INFO (FetchingMsg code) s))
      (Inr (logger INFO (FetchingMsg code) t))"
    unfolding logger_def by (rule mirrored_emit [OF Suc.prems(1)]) simp
  obtain data s1 where f: "fetch_icd_data e code (token cfg) (logger INFO (FetchingMsg code) s) = (data, s1)"
    by (cases "fetch_icd_data e code (token cfg) (logger INFO (FetchingMsg code) s)")
  from mirrored_fetch [OF mirrored_keeps [OF m0, simplified] f] obtain t1 where
    ft: "fetch_icd_data e code (token cfg) (logger INFO (FetchingMsg code) t) = (data, t1)"
    and m1': "mirrored e ?d (logger INFO (FetchingMsg code) s) (logger INFO (FetchingMsg code) t)
        (Inr s1) (Inr t1)"
    by blast
  from m0 m1' have m1: "mirrored e ?d s t (Inr s1) (Inr t1)"
    by (rule mirrored_trans)
  from mirrored_keeps [OF m1] have k1: "keeps_dir e ?d s1 t1" by simp
  show ?case
  proof (cases "truthy data")
    case False
    with Suc.prems(2) f have "r = time_sleep code (delay cfg) s1"
      by (simp add: process_icd_code_Suc)
    with mirrored_sleep [OF k1, of code "delay cfg"] m1
    have "mirrored e ?d s t r (time_sleep code (delay cfg) t1)"
      by (auto intro: mirrored_trans)
    with False ft show ?thesis
      by (simp add: process_icd_code_Suc)
  next
    case True
    let ?body = "\<lambda>u. case child_items data of
        Inl err \<Rightarrow> Some (Inl (err, u))
      | Inr items \<Rightarrow> and_then (?loop items u) (\<lambda>st3. Some (time_sleep code (delay cfg) st3))"
    have unf: "process_icd_code (Suc n) e cfg code u =
        and_then (Some (save_icd_data e data code ?d u1)) ?body"
      if "fetch_icd_data e code (token cfg) (logger INFO (FetchingMsg code) u) = (data, u1)"
      for u u1
      using that True
      by (simp add: process_icd_code_Suc and_then_def split: sum.split)
    have body: "\<exists>r'. ?body t2 = Some r' \<and> mirrored e ?d s2 t2 r r'"
      if kd: "keeps_dir e ?d s2 t2" and run: "?body s2 = Some r" for s2 t2
    proof (cases "child_items data")
      case (Inl err)
      with run kd show ?thesis by (auto intro: mirrored_raise)
    next
      case (Inr items)
      with run obtain q where q: "?loop items s2 = Some q"
        and rest: "and_then (Some q) (\<lambda>st3. Some (time_sleep code (delay cfg) st3)) = Some r"
        by (cases "?loop items s2") (auto simp: and_then_def)
      from loop [OF kd q] obtain q' where q': "?loop items t2 = Some q'" "mirrored e ?d s2 t2 q q'"
        by blast
      have "\<exists>r'. and_then (Some q') (\<lambda>st3. Some (time_sleep code (delay cfg) st3)) = Some r'
          \<and> mirrored e ?d s2 t2 r r'"
      proof (rule mirrored_and_then [OF q'(2) rest])
        fix s3 t3
        assume "keeps_dir e ?d s3 t3" "Some (time_sleep code (delay cfg) s3) = Some r"
        then show "\<exists>r'. Some (time_sleep code (delay cfg) t3) = Some r' \<and> mirrored e ?d s3 t3 r r'"
          by (rule slp)
      qed
      with q'(1) Inr show ?thesis
        by simp
    qed
    from Suc.prems(2) unf [OF f]
    have run: "and_then (Some (save_icd_data e data code ?d s1)) ?body = Some r"
      by simp
    have "\<exists>r'. and_then (Some (save_icd_data e data code ?d t1)) ?body = Some r'
        \<and> mirrored e ?d s1 t1 r r'"
    proof (rule mirrored_and_then [OF mirrored_save [OF k1] run])
      fix s2 t2
      assume "keeps_dir e ?d s2 t2" "?body s2 = Some r"
      then show "\<exists>r'. ?body t2 = Some r' \<and> mirrored e ?d s2 t2 r r'"
        by (rule body)
    qed
    then obtain r' where r': "and_then (Some (save_icd_data e data code ?d t1)) ?body = Some r'"
      "mirrored e ?d s1 t1 r r'"
      by blast
    from m1 r'(2) have "mirrored e ?d s t r r'"
      by (rule mirrored_trans)
    with r'(1) unf [OF ft] show ?thesis
      by simp
  qed
qed

lemma mirrored_as_raise:
  "mirrored e d s t (Inr s1) (Inr t1) \<Longrightarrow> mirrored e d s t (Inl (err, s1)) (Inl (err, t1))"
  by (simp add: mirrored_def)

lemma mirrored_logger:
  "keeps_dir e d s t \<Longrightarrow> mirrored e d s t (Inr (logger lvl m s)) (Inr (logger lvl m t))"
  unfolding logger_def by (rule mirrored_emit) simp_all

lemma get_root_codes_mirrored:
  assumes kd: "keeps_dir e d s t"
  shows "(get_root_codes e tok s = Inl (err, s') \<longrightarrow>
           (\<exists>t'. get_root_codes e tok t = Inl (err, t')
                \<and> mirrored e d s t (Inl (err, s')) (Inl (err, t'))))
       \<and> (get_root_codes e tok s = Inr (codes, s') \<longrightarrow>
           (\<exists>t'. get_root_codes e tok t = Inr (codes, t')
                \<and> mirrored e d s t (Inr s') (Inr t')))"
proof -
  obtain data s1 where f: "fetch_icd_data e [] tok s = (data, s1)"
    by (cases "fetch_icd_data e [] tok s")
  from mirrored_fetch [OF kd f] obtain t1 where
    ft: "fetch_icd_data e [] tok t = (data, t1)" and m1: "mirrored e d s t (Inr s1) (Inr t1)"
    by blast
  from mirrored_keeps [OF m1] have k1: "keeps_dir e d s1 t1" by simp
  have m2: "mirrored e d s t (Inr (logger WARNING RootWarningMsg s1))
      (Inr (logger WARNING RootWarningMsg t1))"
    using m1 mirrored_logger [OF k1] by (rule mirrored_trans)
  show ?thesis
    using m1 m2 mirrored_as_raise [OF m1]
    by (auto simp: get_root_codes_def f ft split: if_splits sum.splits)
qed

lemma main_alt:
  "main n e cfg st =
     (case get_root_codes e (token cfg) (logger INFO StartMsg st) of
        Inl err \<Rightarrow> Some (Inl err)
      | Inr (root_codes, st1) \<Rightarrow>
          and_then (for_each (process_icd_code n e cfg) root_codes
                      (logger INFO (RootCodesMsg root_codes) st1))
            (\<lambda>st2. Some (Inr (logger INFO CompleteMsg st2))))"
  by (simp add: main_def and_then_def split: sum.split prod.split)

lemma main_mirrored:
  assumes kd: "keeps_dir e (output_dir cfg) s t" and run: "main n e cfg s = Some r"
  shows "\<exists>r'. main n e cfg t = Some r' \<and> mirrored e (output_dir cfg) s t r r'"
proof -
  let ?d = "output_dir cfg"
  let ?s0 = "logger INFO StartMsg s" and ?t0 = "logger INFO StartMsg t"
  have m0: "mirrored e ?d s t (Inr ?s0) (Inr ?t0)"
    using kd by (rule mirrored_logger)
  from mirrored_keeps [OF m0] have k0: "keeps_dir e ?d ?s0 ?t0" by simp
  show ?thesis
  proof (cases "get_root_codes e (token cfg) ?s0")
    case (Inl a)
    obtain err s1 where a: "a = (err, s1)" by (cases a)
    from get_root_codes_mirrored [OF k0, where tok = "token cfg" and err = err and s' = s1] Inl a obtain t1 where
      t1: "get_root_codes e (token cfg) ?t0 = Inl (err, t1)"
        "mirrored e ?d ?s0 ?t0 (Inl (err, s1)) (Inl (err, t1))"
      by blast
    from run Inl a have "r = Inl (err, s1)"
      by (simp add: main_alt)
    with m0 t1 show ?thesis
      by (auto simp: main_alt intro: mirrored_trans)
  next
    case (Inr b)
    obtain codes s1 where b: "b = (codes, s1)" by (cases b)
    from get_root_codes_mirrored [OF k0, where tok = "token cfg" and codes = codes and s' = s1] Inr b obtain t1 where
      t1: "get_root_codes e (token cfg) ?t0 = Inr (codes, t1)"
        "mirrored e ?d ?s0 ?t0 (Inr s1) (Inr t1)"
      by blast
    from m0 t1(2) have m1: "mirrored e ?d s t (Inr s1) (Inr t1)"
      by (rule mirrored_trans)
    from mirrored_keeps [OF m1] have k1: "keeps_dir e ?d s1 t1" by simp
    let ?s2 = "logger INFO (RootCodesMsg codes) s1" and ?t2 = "logger INFO (RootCodesMsg codes) t1"
    have m2: "mirrored e ?d s t (Inr ?s2) (Inr ?t2)"
      using m1 mirrored_logger [OF k1] by (rule mirrored_trans)
    from mirrored_keeps [OF m2] have k2: "keeps_dir e ?d ?s2 ?t2" by simp
    from run Inr b obtain q where q: "for_each (process_icd_code n e cfg) codes ?s2 = Some q"
      and rest: "and_then (Some q) (\<lambda>st2. Some (Inr (logger INFO CompleteMsg st2))) = Some r"
      by (cases "for_each (process_icd_code n e cfg) codes ?s2") (auto simp: main_alt and_then_def)
    have "\<exists>q'. for_each (process_icd_code n e cfg) codes ?t2 = Some q' \<and> mirrored e ?d ?s2 ?t2 q q'"
    proof (rule for_each_mirrored [where f = "process_icd_code n e cfg", OF _ k2 q])
      fix x u v w
      assume "keeps_dir e ?d u v" "process_icd_code n e cfg x u = Some w"
      then show "\<exists>r'. process_icd_code n e cfg x v = Some r' \<and> mirrored e ?d u v w r'"
        by (rule process_mirrored)
    qed
    then obtain q' where q': "for_each (process_icd_code n e cfg) codes ?t2 = Some q'"
      "mirrored e ?d ?s2 ?t2 q q'"
      by blast
    have "\<exists>r'. and_then (Some q') (\<lambda>st2. Some (Inr (logger INFO CompleteMsg st2))) = Some r'
        \<and> mirrored e ?d ?s2 ?t2 r r'"
    proof (rule mirrored_and_then [OF q'(2) rest])
      fix s3 t3
      assume "keeps_dir e ?d s3 t3" "Some (Inr (logger INFO CompleteMsg s3)) = Some r"
      then show "\<exists>r'. Some (Inr (logger INFO CompleteMsg t3)) = Some r' \<and> mirrored e ?d s3 t3 r r'"
        using mirrored_logger [of e ?d s3 t3 INFO CompleteMsg] by auto
    qed
    then obtain r' where r': "and_then (Some q') (\<lambda>st2. Some (Inr (logger INFO CompleteMsg st2))) = Some r'"
      "mirrored e ?d ?s2 ?t2 r r'"
      by blast
    from m2 r'(2) have "mirrored e ?d s t r r'" by (rule mirrored_trans)
    with r'(1) t1(1) q'(1) show ?thesis
      by (simp add: main_alt)
  qed
qed

lemma save_overwrites:
  assumes "open_write e (icd_filename code dir) data = WriteOk"
    and "save_icd_data e data code dir s = Inr s'"
  shows "files s' = (files s)(icd_filename code dir \<mapsto> Dumped data)"
  using assms
  by (auto simp: save_icd_data_def Let_def logger_def emit_def split: if_splits option.splits)

text \<open>
  C7. In an unchanged world (the remote answers and the storage behaves as before), a
  second run of \<^verbatim>\<open>main\<close>, started where the first run ended, ends the same way
  (normally, or with the same exception) and leaves every file with the same name and
  the same contents: a save that succeeds replaces whatever the file held and touches
  no other file.
\<close>

theorem crawl_twice_same_files:
  assumes "main n e cfg st = Some r1"
  shows "(\<exists>r2. main n e cfg (final r1) = Some r2
            \<and> raised r2 = raised r1
            \<and> files (final r2) = files (final r1))
       \<and> (\<forall>data code s s'.
            open_write e (icd_filename code (output_dir cfg)) data = WriteOk
            \<and> save_icd_data e data code (output_dir cfg) s = Inr s'
            \<longrightarrow> files s' = (files s)(icd_filename code (output_dir cfg) \<mapsto> Dumped data))"
proof -
  let ?d = "output_dir cfg"
  from main_mirrored [OF keeps_dir_refl assms] obtain r1' where
    "main n e cfg st = Some r1'" "mirrored e ?d st st r1 r1'"
    by blast
  then have kd: "keeps_dir e ?d st (final r1)"
    by (simp add: mirrored_def)
  from main_mirrored [OF kd assms] obtain r2 where
    r2: "main n e cfg (final r1) = Some r2" and m: "mirrored e ?d st (final r1) r1 r2"
    by blast
  from m obtain evs where evs: "files (final r1) = apply_writes evs (files st)"
    "files (final r2) = apply_writes evs (files (final r1))" and "raised r2 = raised r1"
    by (auto simp: mirrored_def)
  then have "files (final r2) = files (final r1)"
    by (simp add: apply_writes_twice)
  with r2 \<open>raised r2 = raised r1\<close> save_overwrites show ?thesis
    by blast
qed

theorem crawl_twice_same_files_witness:
  "main 2 (served scenario_remote) default_cfg empty_state = Some (Inr scenario_result)
   \<and> (\<exists>r2. main 2 (served scenario_remote) default_cfg scenario_result = Some r2
          \<and> raised r2 = None
          \<and> files (final r2) = [''icd_data/icd10_A.json'' \<mapsto> Dumped payload_A])"
proof -
  have run: "main 2 (served scenario_remote) default_cfg empty_state = Some (Inr scenario_result)"
    by (simp add: run_defs world_defs scenario_remote_def scenario_result_def payload_A_def
        numeral_2_eq_2)
  from crawl_twice_same_files [OF run] obtain r2 where
    "main 2 (served scenario_remote) default_cfg scenario_result = Some r2"
    "raised r2 = None" "files (final r2) = files scenario_result"
    by auto
  moreover have "files scenario_result = [''icd_data/icd10_A.json'' \<mapsto> Dumped payload_A]"
    by (simp add: scenario_result_def)
  ultimately show ?thesis
    using run by auto
qed

section \<open>Termination\<close>

































section \<open>Exactly one wait for each node\<close>















end
